theory Spec2Isabelle
  imports Complex_Main "HOL-Library.Word"
begin

section \<open>Python values\<close>

text \<open>
  A Python \<open>str\<close> is a sequence of Unicode code points, so it is modelled as a list of
  natural numbers; \<open>bytes\<close> is a list of 8-bit words. \<open>str\<close> turns an ASCII literal
  into such a sequence.
\<close>

type_synonym pystr = "nat list"

type_synonym byte = "8 word"

definition str :: "string \<Rightarrow> pystr" where
  "str s = map of_char s"

text \<open>
  \<open>str.isspace\<close> of one code point, and the line boundaries of \<open>str.splitlines\<close>
  (the tables of the interpreter). Every line boundary is a whitespace character.
\<close>

definition is_space :: "nat \<Rightarrow> bool" where
  "is_space c \<longleftrightarrow>
     (9 \<le> c \<and> c \<le> 13) \<or> (28 \<le> c \<and> c \<le> 32) \<or> c = 133 \<or> c = 160 \<or> c = 5760
     \<or> (8192 \<le> c \<and> c \<le> 8202) \<or> c = 8232 \<or> c = 8233 \<or> c = 8239 \<or> c = 8287
     \<or> c = 12288"

definition is_linebreak :: "nat \<Rightarrow> bool" where
  "is_linebreak c \<longleftrightarrow>
     (10 \<le> c \<and> c \<le> 13) \<or> (28 \<le> c \<and> c \<le> 30) \<or> c = 133 \<or> c = 8232 \<or> c = 8233"

definition lstrip :: "pystr \<Rightarrow> pystr" where
  "lstrip s = dropWhile is_space s"

definition rstrip :: "pystr \<Rightarrow> pystr" where
  "rstrip s = rev (dropWhile is_space (rev s))"

definition strip :: "pystr \<Rightarrow> pystr" where
  "strip s = lstrip (rstrip s)"

definition startswith :: "pystr \<Rightarrow> pystr \<Rightarrow> bool" where
  "startswith s p \<longleftrightarrow> take (length p) s = p"

text \<open>
  \<open>s.splitlines()\<close>: \<open>cur\<close> is the line read so far, reversed. A carriage return
  followed by a line feed is one boundary; a text that ends in a boundary has no empty
  last line.
\<close>

fun splitlines_from :: "pystr \<Rightarrow> pystr \<Rightarrow> pystr list" where
  "splitlines_from cur [] = (if cur = [] then [] else [rev cur])"
| "splitlines_from cur (c # cs) =
     (if is_linebreak c
      then rev cur # splitlines_from [] (if c = 13 \<and> cs \<noteq> [] \<and> hd cs = 10 then tl cs else cs)
      else splitlines_from (c # cur) cs)"

definition splitlines :: "pystr \<Rightarrow> pystr list" where
  "splitlines s = splitlines_from [] s"

text \<open>\<open>sub in s\<close> on strings.\<close>

fun contains :: "pystr \<Rightarrow> pystr \<Rightarrow> bool" where
  "contains sub [] = (sub = [])"
| "contains sub (c # cs) = (startswith (c # cs) sub \<or> contains sub cs)"

text \<open>\<open>str(n)\<close> of a non-negative integer: its decimal digits.\<close>

function str_nat :: "nat \<Rightarrow> pystr" where
  "str_nat n = (if n < 10 then [48 + n] else str_nat (n div 10) @ [48 + n mod 10])"
  by pat_completeness auto
termination
  by (relation "measure id") auto

declare str_nat.simps [simp del]

section \<open>Exceptions and UTF-8 with a byte-order mark\<close>

text \<open>
  The exceptions the handlers of \<open>bot.py\<close> tell apart, and \<open>Error\<close> for every other
  subclass of \<open>Exception\<close>, with its \<open>str(e)\<close>.
\<close>

datatype exn = TelegramBadRequest | TelegramNetworkError | UnicodeEncodeError | Error pystr

text \<open>
  \<open>s.encode('utf-8-sig')\<close>: the three bytes EF BB BF, then the UTF-8 bytes of every
  code point. The codec is strict: a surrogate (D800 to DFFF) raises; a number from
  110000 on is no code point of a \<open>str\<close>.
\<close>

definition utf8_char :: "nat \<Rightarrow> exn + byte list" where
  "utf8_char c =
     (if c < 0x80 then Inr [of_nat c]
      else if c < 0x800 then Inr [of_nat (0xC0 + c div 64), of_nat (0x80 + c mod 64)]
      else if 0xD800 \<le> c \<and> c < 0xE000 then Inl UnicodeEncodeError
      else if c < 0x10000 then
        Inr [of_nat (0xE0 + c div 4096), of_nat (0x80 + c div 64 mod 64), of_nat (0x80 + c mod 64)]
      else if c < 0x110000 then
        Inr [of_nat (0xF0 + c div 262144), of_nat (0x80 + c div 4096 mod 64),
             of_nat (0x80 + c div 64 mod 64), of_nat (0x80 + c mod 64)]
      else Inl UnicodeEncodeError)"

fun utf8_encode :: "pystr \<Rightarrow> exn + byte list" where
  "utf8_encode [] = Inr []"
| "utf8_encode (c # cs) =
     (case utf8_char c of
        Inl e \<Rightarrow> Inl e
      | Inr bs \<Rightarrow> (case utf8_encode cs of Inl e \<Rightarrow> Inl e | Inr rest \<Rightarrow> Inr (bs @ rest)))"

definition BOM_UTF8 :: "byte list" where
  "BOM_UTF8 = [0xEF, 0xBB, 0xBF]"

definition encode_utf8_sig :: "pystr \<Rightarrow> exn + byte list" where
  "encode_utf8_sig s = (case utf8_encode s of Inl e \<Rightarrow> Inl e | Inr bs \<Rightarrow> Inr (BOM_UTF8 @ bs))"

section \<open>Constants of \<open>bot.py\<close>\<close>

definition MAX_QUERIES :: nat where
  "MAX_QUERIES = 10000"

definition MAX_FILE_SIZE :: int where
  "MAX_FILE_SIZE = 10 * 1024 * 1024"

text \<open>The literal \<open>0.1\<close>, in seconds.\<close>

definition SLEEP_BETWEEN_REQUESTS :: rat where
  "SLEEP_BETWEEN_REQUESTS = 1 / 10"

section \<open>Messages to the user and observable events\<close>

text \<open>
  One constructor for each text the handlers send with \<open>message.reply\<close>,
  \<open>message.answer\<close> or as a caption, carrying the values the f-string interpolates:
  \<open>TooManyQueries\<close> (line 61), \<open>NothingProcessed\<close> (line 113), \<open>ProcessingFailed\<close>
  (line 127), \<open>FileTooLarge\<close> (line 150), \<open>NotTextFile\<close> (line 155), \<open>Undecodable\<close>
  (line 178), \<open>FileReadFailed\<close> (line 185), \<open>NoQueries\<close> (line 206), \<open>Starting\<close>
  (line 215), \<open>Done\<close> (line 237), \<open>SendNetworkFailed\<close> (line 248), \<open>SendFailed\<close>
  (line 254).
\<close>

datatype notice =
    TooManyQueries nat nat
  | NothingProcessed
  | ProcessingFailed exn
  | FileTooLarge int
  | NotTextFile
  | Undecodable
  | FileReadFailed
  | NoQueries
  | Starting nat
  | Done nat
  | SendNetworkFailed
  | SendFailed

text \<open>
  The status texts of \<open>edit_text\<close> are kept as text. Line 99 is the f-string
  \<open>prefix {i}/{total_queries} suffix\<close>, where the prefix is an hourglass and the Russian
  word for "processed" and the suffix the word for "queries" and three dots; line 228 is
  a fixed text.
\<close>

definition progress_prefix :: pystr where
  "progress_prefix =
     [0x23F3, 0x20, 0x41E, 0x431, 0x440, 0x430, 0x431, 0x43E, 0x442, 0x430, 0x43D, 0x43E, 0x20]"

definition progress_suffix :: pystr where
  "progress_suffix = [0x20, 0x437, 0x430, 0x43F, 0x440, 0x43E, 0x441, 0x43E, 0x432, 0x2E, 0x2E, 0x2E]"

definition progress_text :: "nat \<Rightarrow> nat \<Rightarrow> pystr" where
  "progress_text i total_queries =
     progress_prefix @ str_nat i @ str ''/'' @ str_nat total_queries @ progress_suffix"

definition sending_text :: pystr where
  "sending_text =
     [0x1F4E4, 0x20, 0x41E, 0x442, 0x43F, 0x440, 0x430, 0x432, 0x43B, 0x44F, 0x44E, 0x20, 0x440,
      0x435, 0x437, 0x443, 0x43B, 0x44C, 0x442, 0x430, 0x442, 0x2E, 0x2E, 0x2E]"

text \<open>
  What a run does to the outside, in order. \<open>Search i q\<close> is the call
  \<open>a.search_xmlriver(q)\<close> made for the query at the 1-based index \<open>i\<close>;
  \<open>WriteHeader\<close> is the \<open>writerow\<close> of line 87 and \<open>WriteRow i\<close> the one of line 93;
  \<open>Sleep\<close> is \<open>asyncio.sleep\<close>. Calls to the logger are left out.
\<close>

datatype 'r event =
    Reply notice
  | Answer notice
  | Search nat pystr
  | WriteHeader 'r
  | WriteRow nat 'r
  | EditText pystr
  | Sleep rat
  | GetFile pystr
  | DownloadFile pystr
  | AnswerDocument "byte list" pystr notice
  | Delete

section \<open>Collaborators\<close>

text \<open>
  \<open>organic_ya\<close>, \<open>xmltree\<close>, \<open>csv\<close> and the chat transport are not part of
  \<open>bot.py\<close>; they are parameters. Each call that may raise returns a sum, \<open>Inl\<close> the
  exception.
  \<^item> \<open>Organic\<close>: the constructor \<open>organic_ya.Organic()\<close>.
  \<^item> \<open>search_xmlriver a i q\<close>: the lookup of \<open>q\<close> made at index \<open>i\<close>. It is a network
    call, so two calls with the same text may differ: the index tells them apart.
  \<^item> \<open>XmlTree_get_header x\<close>: \<open>xmltree.XmlTree.get_header(x)\<close>.
  \<^item> \<open>XmlTree_get_row x q\<close>: \<open>xmltree.XmlTree(x, q).get_row()\<close>.
  \<^item> \<open>writerow r\<close>: the text \<open>csv.writer(output).writerow(r)\<close> appends to \<open>output\<close>.
  \<^item> \<open>edit_text i\<close>: whether the \<open>message.edit_text\<close> made at index \<open>i\<close> raises.
  \<open>message.reply\<close> and \<open>message.answer\<close> are taken to deliver, and a cancellation
  of the task (not an \<open>Exception\<close>) is not modelled.
\<close>

record ('a, 'x, 'r) collaborators =
  Organic :: "exn + 'a"
  search_xmlriver :: "'a \<Rightarrow> nat \<Rightarrow> pystr \<Rightarrow> exn + 'x"
  XmlTree_get_header :: "'x \<Rightarrow> exn + 'r"
  XmlTree_get_row :: "'x \<Rightarrow> pystr \<Rightarrow> exn + 'r"
  writerow :: "'r \<Rightarrow> pystr"
  edit_text :: "nat \<Rightarrow> exn option"

section \<open>\<open>process_queries\<close>\<close>

text \<open>
  The variables of \<open>process_queries\<close> that change in the loop: the text in the
  \<open>StringIO\<close>, \<open>header_written\<close>, \<open>processed\<close>, and the events so far.
\<close>

record 'r state =
  output_io :: pystr
  header_written :: bool
  processed :: nat
  trace :: "'r event list"

definition emit :: "'r event \<Rightarrow> 'r state \<Rightarrow> 'r state" where
  "emit e st = st\<lparr>trace := trace st @ [e]\<rparr>"

definition init_state :: "'r state" where
  "init_state = \<lparr>output_io = [], header_written = False, processed = 0, trace = []\<rparr>"

text \<open>Lines 84 to 88: the header is derived and written unless it has been written.\<close>

definition write_header :: "('a, 'x, 'r) collaborators \<Rightarrow> 'x \<Rightarrow> 'r state \<Rightarrow> exn + 'r state" where
  "write_header env xml_data st =
     (if \<not> header_written st then
        (case XmlTree_get_header env xml_data of
           Inl e \<Rightarrow> Inl e
         | Inr header \<Rightarrow>
             Inr (emit (WriteHeader header)
                   (st\<lparr>output_io := output_io st @ writerow env header, header_written := True\<rparr>)))
      else Inr st)"

text \<open>
  Lines 97 to 102: every tenth index the status message is edited; a
  \<open>TelegramBadRequest\<close> is swallowed, any other exception leaves the \<open>try\<close> block
  (the first component of the result).
\<close>

definition report_progress ::
  "('a, 'x, 'r) collaborators \<Rightarrow> nat \<Rightarrow> nat \<Rightarrow> 'r state \<Rightarrow> exn option \<times> 'r state" where
  "report_progress env total_queries i st =
     (if i mod 10 = 0 then
        (let st = emit (EditText (progress_text i total_queries)) st
         in case edit_text env i of
              None \<Rightarrow> (None, st)
            | Some e \<Rightarrow> if e = TelegramBadRequest then (None, st) else (Some e, st))
      else (None, st))"

text \<open>
  Lines 77 to 110, the \<open>try\<close> block of one query and its handler. Wherever a call
  raises, the handler logs and continues with the state reached so far.
\<close>

definition try_query ::
  "('a, 'x, 'r) collaborators \<Rightarrow> 'a \<Rightarrow> nat \<Rightarrow> nat \<Rightarrow> pystr \<Rightarrow> 'r state \<Rightarrow> 'r state" where
  "try_query env a total_queries i query st =
     (let st = emit (Search i (strip query)) st
      in case search_xmlriver env a i (strip query) of
           Inl e \<Rightarrow> st
         | Inr xml_data \<Rightarrow>
             (case write_header env xml_data st of
                Inl e \<Rightarrow> st
              | Inr st \<Rightarrow>
                  (case XmlTree_get_row env xml_data (strip query) of
                     Inl e \<Rightarrow> st
                   | Inr row \<Rightarrow>
                       (let st = emit (WriteRow i row)
                                   (st\<lparr>output_io := output_io st @ writerow env row,
                                       processed := processed st + 1\<rparr>)
                        in case report_progress env total_queries i st of
                             (Some e, st) \<Rightarrow> st
                           | (None, st) \<Rightarrow> emit (Sleep SLEEP_BETWEEN_REQUESTS) st))))"

text \<open>Lines 73 to 75: the loop over \<open>enumerate(queries, 1)\<close>, skipping blank queries.\<close>

fun for_queries ::
  "('a, 'x, 'r) collaborators \<Rightarrow> 'a \<Rightarrow> nat \<Rightarrow> (nat \<times> pystr) list \<Rightarrow> 'r state \<Rightarrow> 'r state" where
  "for_queries env a total_queries [] st = st"
| "for_queries env a total_queries ((i, query) # rest) st =
     for_queries env a total_queries rest
       (if strip query = [] then st else try_query env a total_queries i query st)"

text \<open>The state at line 112, after the loop.\<close>

definition final_state :: "('a, 'x, 'r) collaborators \<Rightarrow> 'a \<Rightarrow> pystr list \<Rightarrow> 'r state" where
  "final_state env a queries =
     for_queries env a (length queries) (enumerate 1 queries) init_state"

text \<open>
  \<open>process_queries\<close> returns the bytes or \<open>None\<close>, and the events of the run. The
  handler of line 125 is reached when the constructor or the encoding raises.
\<close>

definition process_queries ::
  "('a, 'x, 'r) collaborators \<Rightarrow> pystr list \<Rightarrow> byte list option \<times> 'r event list" where
  "process_queries env queries =
     (if length queries > MAX_QUERIES
      then (None, [Reply (TooManyQueries MAX_QUERIES (length queries))])
      else
        (case Organic env of
           Inl e \<Rightarrow> (None, [Reply (ProcessingFailed e)])
         | Inr a \<Rightarrow>
             (let st = final_state env a queries
              in if processed st = 0 then (None, trace st @ [Reply NothingProcessed])
                 else if output_io st = [] then (None, trace st)
                 else
                   (case encode_utf8_sig (output_io st) of
                      Inl e \<Rightarrow> (None, trace st @ [Reply (ProcessingFailed e)])
                    | Inr csv_bytes \<Rightarrow> (Some csv_bytes, trace st)))))"

section \<open>\<open>extract_queries_from_text\<close>\<close>

text \<open>Lines 135 to 139: the loop that collects the queries.\<close>

fun collect_queries :: "pystr list \<Rightarrow> pystr list \<Rightarrow> pystr list" where
  "collect_queries queries [] = queries"
| "collect_queries queries (line # lines) =
     (let line = strip line
      in if line \<noteq> [] \<and> \<not> startswith line (str ''#'')
         then collect_queries (queries @ [line]) lines
         else collect_queries queries lines)"

definition extract_queries_from_text :: "pystr \<Rightarrow> pystr list" where
  "extract_queries_from_text text =
     (if text = [] then [] else collect_queries [] (splitlines (strip text)))"

text \<open>
  The extraction in the words of the specification: split on line boundaries, trim every
  line, keep the lines that are not empty and do not begin with \<open>#\<close>, in order.
\<close>

definition is_query_line :: "pystr \<Rightarrow> bool" where
  "is_query_line l \<longleftrightarrow> l \<noteq> [] \<and> \<not> startswith l (str ''#'')"

definition extract_spec :: "pystr \<Rightarrow> pystr list" where
  "extract_spec text = filter is_query_line (map strip (splitlines text))"

section \<open>\<open>extract_queries_from_file\<close> and \<open>handle_message\<close>\<close>

record document =
  file_id :: pystr
  file_size :: "int option"
  mime_type :: "pystr option"

record message =
  msg_text :: "pystr option"
  msg_document :: "document option"

datatype encoding = UTF_8 | UTF_8_SIG | WINDOWS_1251 | CP1251

text \<open>
  The chat and file side: \<open>bot.get_file\<close>, \<open>bot.download_file\<close> (the content of the
  file), \<open>bytes.decode\<close> (\<open>None\<close> for a \<open>UnicodeDecodeError\<close>), and whether the
  \<open>edit_text\<close> of line 228 and the \<open>answer_document\<close> of line 235 raise.
\<close>

record host =
  get_file :: "pystr \<Rightarrow> exn + pystr"
  download_file :: "pystr \<Rightarrow> exn + byte list"
  decode :: "encoding \<Rightarrow> byte list \<Rightarrow> pystr option"
  edit_sending :: "exn option"
  answer_document :: "exn option"

text \<open>Lines 166 to 175: the first encoding of the list that decodes the content.\<close>

fun first_decoding :: "(encoding \<Rightarrow> byte list \<Rightarrow> pystr option) \<Rightarrow> encoding list \<Rightarrow> byte list \<Rightarrow> pystr option" where
  "first_decoding dec [] bs = None"
| "first_decoding dec (encoding # encodings) bs =
     (case dec encoding bs of Some content \<Rightarrow> Some content | None \<Rightarrow> first_decoding dec encodings bs)"

definition encodings :: "encoding list" where
  "encodings = [UTF_8, UTF_8_SIG, WINDOWS_1251, CP1251]"

text \<open>Line 149: the size is compared only when it is there and not zero.\<close>

definition size_rejected :: "document \<Rightarrow> bool" where
  "size_rejected doc =
     (case file_size doc of None \<Rightarrow> False | Some n \<Rightarrow> n \<noteq> 0 \<and> n > MAX_FILE_SIZE)"

definition mime_accepted :: "document \<Rightarrow> bool" where
  "mime_accepted doc \<longleftrightarrow>
     mime_type doc = Some (str ''text/plain'') \<or> mime_type doc = Some (str ''application/octet-stream'')"

text \<open>Lines 158 to 186: download, decoding and extraction.\<close>

definition download_and_extract :: "host \<Rightarrow> document \<Rightarrow> pystr list option \<times> 'r event list" where
  "download_and_extract h doc =
     (case get_file h (file_id doc) of
        Inl e \<Rightarrow> (None, [GetFile (file_id doc), Reply FileReadFailed])
      | Inr file_path \<Rightarrow>
          (case download_file h file_path of
             Inl e \<Rightarrow> (None, [GetFile (file_id doc), DownloadFile file_path, Reply FileReadFailed])
           | Inr buffer \<Rightarrow>
               (case first_decoding (decode h) encodings buffer of
                  None \<Rightarrow> (None, [GetFile (file_id doc), DownloadFile file_path, Reply Undecodable])
                | Some content \<Rightarrow>
                    (Some (extract_queries_from_text content),
                     [GetFile (file_id doc), DownloadFile file_path]))))"

definition extract_queries_from_file :: "host \<Rightarrow> message \<Rightarrow> pystr list option \<times> 'r event list" where
  "extract_queries_from_file h message =
     (case msg_document message of
        None \<Rightarrow> (None, [])
      | Some doc \<Rightarrow>
          if size_rejected doc
          then (None, [Reply (FileTooLarge (MAX_FILE_SIZE div (1024 * 1024)))])
          else if \<not> mime_accepted doc then (None, [Reply NotTextFile])
          else download_and_extract h doc)"

text \<open>Line 232: the name of the attachment.\<close>

definition attachment_name :: "pystr list \<Rightarrow> pystr" where
  "attachment_name queries = str ''search_results_'' @ str_nat (length queries) @ str ''_queries.csv''"

text \<open>Lines 195 to 202: the queries of a message, from its text or from its document.\<close>

definition message_queries :: "host \<Rightarrow> message \<Rightarrow> pystr list option \<times> 'r event list" where
  "message_queries h message =
     (case msg_text message of
        Some text \<Rightarrow>
          if text \<noteq> [] \<and> \<not> startswith text (str ''/'')
          then (Some (extract_queries_from_text text), [])
          else if msg_document message \<noteq> None then extract_queries_from_file h message
          else (Some [], [])
      | None \<Rightarrow>
          if msg_document message \<noteq> None then extract_queries_from_file h message
          else (Some [], []))"

text \<open>Lines 227 to 254: sending the result.\<close>

definition send_failed :: "exn \<Rightarrow> notice" where
  "send_failed e = (if e = TelegramNetworkError then SendNetworkFailed else SendFailed)"

definition send_result :: "host \<Rightarrow> pystr list \<Rightarrow> byte list \<Rightarrow> 'r event list" where
  "send_result h queries csv_data =
     EditText sending_text #
     (case edit_sending h of
        Some e \<Rightarrow> [Reply (send_failed e)]
      | None \<Rightarrow>
          AnswerDocument csv_data (attachment_name queries) (Done (length queries)) #
          (case answer_document h of
             Some e \<Rightarrow> [Reply (send_failed e)]
           | None \<Rightarrow> [Delete]))"

text \<open>
  \<open>handle_message\<close>, as the events it causes. With replies that deliver, nothing reaches
  the handler of line 256.
\<close>

definition handle_message :: "('a, 'x, 'r) collaborators \<Rightarrow> host \<Rightarrow> message \<Rightarrow> 'r event list" where
  "handle_message env h message =
     (case message_queries h message of
        (None, evs) \<Rightarrow> evs
      | (Some queries, evs) \<Rightarrow>
          if queries = [] then evs @ [Reply NoQueries]
          else
            (case process_queries env queries of
               (None, run) \<Rightarrow> evs @ Answer (Starting (length queries)) # run
             | (Some csv_data, run) \<Rightarrow>
                 evs @ Answer (Starting (length queries)) # run @ send_result h queries csv_data))"

text \<open>The query lines of the text that follows a line begun with \<open>cur\<close>.\<close>

definition query_lines_from :: "pystr \<Rightarrow> pystr \<Rightarrow> pystr list" where
  "query_lines_from cur t = filter is_query_line (map strip (splitlines_from cur t))"

section \<open>Reading a trace\<close>

text \<open>The events of one kind in a trace, in order.\<close>

definition lookups :: "'r event list \<Rightarrow> (nat \<times> pystr) list" where
  "lookups tr = concat (map (\<lambda>e. case e of Search i q \<Rightarrow> [(i, q)] | _ \<Rightarrow> []) tr)"

definition rows_written :: "'r event list \<Rightarrow> (nat \<times> 'r) list" where
  "rows_written tr = concat (map (\<lambda>e. case e of WriteRow i r \<Rightarrow> [(i, r)] | _ \<Rightarrow> []) tr)"

definition headers_written :: "'r event list \<Rightarrow> 'r list" where
  "headers_written tr = concat (map (\<lambda>e. case e of WriteHeader h \<Rightarrow> [h] | _ \<Rightarrow> []) tr)"

definition written :: "'r event list \<Rightarrow> 'r list" where
  "written tr = concat (map (\<lambda>e. case e of WriteHeader h \<Rightarrow> [h] | WriteRow i r \<Rightarrow> [r] | _ \<Rightarrow> []) tr)"

definition edits :: "'r event list \<Rightarrow> pystr list" where
  "edits tr = concat (map (\<lambda>e. case e of EditText t \<Rightarrow> [t] | _ \<Rightarrow> []) tr)"

definition sleeps :: "'r event list \<Rightarrow> rat list" where
  "sleeps tr = concat (map (\<lambda>e. case e of Sleep d \<Rightarrow> [d] | _ \<Rightarrow> []) tr)"

definition replies :: "'r event list \<Rightarrow> notice list" where
  "replies tr = concat (map (\<lambda>e. case e of Reply n \<Rightarrow> [n] | _ \<Rightarrow> []) tr)"

definition documents :: "'r event list \<Rightarrow> (byte list \<times> pystr \<times> notice) list" where
  "documents tr = concat (map (\<lambda>e. case e of AnswerDocument d n c \<Rightarrow> [(d, n, c)] | _ \<Rightarrow> []) tr)"

section \<open>The Result Row Source of one query\<close>

text \<open>
  What the lookup and the derivations give for the query at index \<open>i\<close>, apart from
  any state of the run: the row (\<open>search_xmlriver\<close>, then the row derivation) and the
  header (\<open>search_xmlriver\<close>, then the header derivation).
\<close>

definition source_row :: "('a, 'x, 'r) collaborators \<Rightarrow> 'a \<Rightarrow> nat \<Rightarrow> pystr \<Rightarrow> exn + 'r" where
  "source_row env a i query =
     (case search_xmlriver env a i (strip query) of
        Inl e \<Rightarrow> Inl e
      | Inr xml_data \<Rightarrow> XmlTree_get_row env xml_data (strip query))"

definition source_header :: "('a, 'x, 'r) collaborators \<Rightarrow> 'a \<Rightarrow> nat \<Rightarrow> pystr \<Rightarrow> exn + 'r" where
  "source_header env a i query =
     (case search_xmlriver env a i (strip query) of
        Inl e \<Rightarrow> Inl e
      | Inr xml_data \<Rightarrow> XmlTree_get_header env xml_data)"

text \<open>
  Of a batch with its indices: the queries that are not blank, and those of them other
  than the query at index \<open>k\<close>.
\<close>

definition nonblank :: "(nat \<times> pystr) list \<Rightarrow> (nat \<times> pystr) list" where
  "nonblank iqs = filter (\<lambda>(i, query). strip query \<noteq> []) iqs"

definition others :: "nat \<Rightarrow> (nat \<times> pystr) list \<Rightarrow> (nat \<times> pystr) list" where
  "others k iqs = filter (\<lambda>(i, query). i \<noteq> k) (nonblank iqs)"


text \<open>The header of the first non-blank query whose lookup and header derivation succeed.\<close>

fun first_header :: "('a, 'x, 'r) collaborators \<Rightarrow> 'a \<Rightarrow> (nat \<times> pystr) list \<Rightarrow> 'r option" where
  "first_header env a [] = None"
| "first_header env a ((i, query) # rest) =
     (if strip query = [] then first_header env a rest
      else (case source_header env a i query of
              Inl e \<Rightarrow> first_header env a rest
            | Inr h \<Rightarrow> Some h))"

text \<open>The events the loop of \<open>process_queries\<close> causes.\<close>

definition loop_event :: "'r event \<Rightarrow> bool" where
  "loop_event e =
     (case e of Search i q \<Rightarrow> True | WriteHeader h \<Rightarrow> True | WriteRow i r \<Rightarrow> True
      | EditText t \<Rightarrow> True | Sleep d \<Rightarrow> True | _ \<Rightarrow> False)"


section \<open>Concrete collaborators for the examples\<close>

text \<open>The line \<open>csv.writer\<close> writes for fields that need no quoting.\<close>

fun join_fields :: "pystr list \<Rightarrow> pystr" where
  "join_fields [] = []"
| "join_fields [f] = f"
| "join_fields (f # g # fs) = f @ str '','' @ join_fields (g # fs)"

definition plain_csv_line :: "pystr list \<Rightarrow> pystr" where
  "plain_csv_line r = join_fields r @ [13, 10]"

text \<open>
  A lookup source for examples. The record of the query at index \<open>i\<close> is \<open>i\<close>; the
  header a record implies names the record, so two records imply different columns. The
  three predicates say at which indices the lookup, the header derivation and the row
  derivation succeed. Edits of the status message succeed.
\<close>

definition demo_env ::
  "(nat \<Rightarrow> bool) \<Rightarrow> (nat \<Rightarrow> bool) \<Rightarrow> (nat \<Rightarrow> bool) \<Rightarrow> (unit, nat, pystr list) collaborators" where
  "demo_env search_ok header_ok row_ok =
     \<lparr>Organic = Inr (),
      search_xmlriver = (\<lambda>a i q. if search_ok i then Inr i else Inl (Error (str ''timeout''))),
      XmlTree_get_header =
        (\<lambda>x. if header_ok x then Inr [str ''query'', str ''col'' @ str_nat x]
             else Inl (Error (str ''no results''))),
      XmlTree_get_row =
        (\<lambda>x q. if row_ok x then Inr [q, str_nat x] else Inl (Error (str ''no results''))),
      writerow = plain_csv_line,
      edit_text = (\<lambda>i. None)\<rparr>"

text \<open>
  Four such sources: nothing raises; the lookup of the first query raises; the lookup of the second
  query raises; and one where the header derivation raises for the first record and the
  row derivation raises for the second.
\<close>

definition all_lookups_succeed :: "(unit, nat, pystr list) collaborators" where
  "all_lookups_succeed = demo_env (\<lambda>i. True) (\<lambda>x. True) (\<lambda>x. True)"

definition first_lookup_fails :: "(unit, nat, pystr list) collaborators" where
  "first_lookup_fails = demo_env (\<lambda>i. i \<noteq> 1) (\<lambda>x. True) (\<lambda>x. True)"


definition derivations_fail :: "(unit, nat, pystr list) collaborators" where
  "derivations_fail = demo_env (\<lambda>i. True) (\<lambda>x. x \<noteq> 1) (\<lambda>x. x \<noteq> 2)"

text \<open>A host whose files hold \<open>content\<close> and decode when they are ASCII.\<close>

definition demo_host :: "byte list \<Rightarrow> host" where
  "demo_host content =
     \<lparr>get_file = (\<lambda>file_id. Inr (str ''documents/file_0.txt'')),
      download_file = (\<lambda>file_path. Inr content),
      decode = (\<lambda>encoding bs. if list_all (\<lambda>b. b < 0x80) bs then Some (map unat bs) else None),
      edit_sending = None,
      answer_document = None\<rparr>"

definition ten_queries :: "pystr list" where
  "ten_queries =
     [str ''q1'', str ''q2'', str ''q3'', str ''q4'', str ''q5'',
      str ''q6'', str ''q7'', str ''q8'', str ''q9'', str ''q10'']"

definition png_document :: document where
  "png_document = \<lparr>file_id = str ''f1'', file_size = None, mime_type = Some (str ''image/png'')\<rparr>"

definition big_document :: document where
  "big_document = \<lparr>file_id = str ''f2'', file_size = Some 0, mime_type = Some (str ''text/plain'')\<rparr>"

text \<open>
  Messages: a text of two lines; a document with no declared size and the MIME type of
  an image; a text document with the declared size 0, and for it a content of
  11000000 bytes, more than \<open>MAX_FILE_SIZE\<close>.
\<close>

definition two_line_message :: message where
  "two_line_message = \<lparr>msg_text = Some (str ''a\<newline>b''), msg_document = None\<rparr>"

definition png_message :: message where
  "png_message = \<lparr>msg_text = None, msg_document = Some png_document\<rparr>"

definition big_message :: message where
  "big_message = \<lparr>msg_text = None, msg_document = Some big_document\<rparr>"

definition big_content :: "byte list" where
  "big_content = replicate 11000000 0x61"

section \<open>The loop of \<open>process_queries\<close>\<close>

lemmas proj_defs = lookups_def rows_written_def headers_written_def written_def edits_def
  sleeps_def replies_def documents_def

lemma proj_Nil:
  "lookups [] = []"
  "rows_written [] = []"
  "headers_written [] = []"
  "written [] = []"
  "edits [] = []"
  "sleeps [] = []"
  "replies [] = []"
  "documents [] = []"
  by (simp_all add: proj_defs)

lemma proj_append:
  "lookups (tr @ tr') = lookups tr @ lookups tr'"
  "rows_written (tr @ tr') = rows_written tr @ rows_written tr'"
  "headers_written (tr @ tr') = headers_written tr @ headers_written tr'"
  "written (tr @ tr') = written tr @ written tr'"
  "edits (tr @ tr') = edits tr @ edits tr'"
  "sleeps (tr @ tr') = sleeps tr @ sleeps tr'"
  "replies (tr @ tr') = replies tr @ replies tr'"
  "documents (tr @ tr') = documents tr @ documents tr'"
  by (simp_all add: proj_defs)

lemma proj_Cons:
  "lookups (e # tr) = (case e of Search i q \<Rightarrow> [(i, q)] | _ \<Rightarrow> []) @ lookups tr"
  "rows_written (e # tr) = (case e of WriteRow i r \<Rightarrow> [(i, r)] | _ \<Rightarrow> []) @ rows_written tr"
  "headers_written (e # tr) = (case e of WriteHeader h \<Rightarrow> [h] | _ \<Rightarrow> []) @ headers_written tr"
  "written (e # tr) = (case e of WriteHeader h \<Rightarrow> [h] | WriteRow i r \<Rightarrow> [r] | _ \<Rightarrow> []) @ written tr"
  "edits (e # tr) = (case e of EditText t \<Rightarrow> [t] | _ \<Rightarrow> []) @ edits tr"
  "sleeps (e # tr) = (case e of Sleep d \<Rightarrow> [d] | _ \<Rightarrow> []) @ sleeps tr"
  "replies (e # tr) = (case e of Reply n \<Rightarrow> [n] | _ \<Rightarrow> []) @ replies tr"
  "documents (e # tr) = (case e of AnswerDocument d n c \<Rightarrow> [(d, n, c)] | _ \<Rightarrow> []) @ documents tr"
  by (simp_all add: proj_defs)

lemmas proj_simps = proj_Nil proj_append proj_Cons

lemmas step_defs = try_query_def write_header_def report_progress_def emit_def Let_def

lemma inv_output:
  "output_io st = concat (map (writerow env) (written (trace st))) \<Longrightarrow>
   output_io (try_query env a t i query st)
     = concat (map (writerow env) (written (trace (try_query env a t i query st))))"
  by (simp add: step_defs proj_simps split: sum.split option.split prod.split)

lemma inv_processed:
  "processed st = length (rows_written (trace st)) \<Longrightarrow>
   processed (try_query env a t i query st)
     = length (rows_written (trace (try_query env a t i query st)))"
  by (simp add: step_defs proj_simps split: sum.split option.split prod.split)

lemma inv_loop_event:
  "list_all loop_event (trace st) \<Longrightarrow> list_all loop_event (trace (try_query env a t i query st))"
  by (simp add: step_defs loop_event_def split: sum.split option.split prod.split)

lemma inv_edits:
  "edits (trace st) = map (\<lambda>i. progress_text i t) (filter (\<lambda>i. i mod 10 = 0) (map fst (rows_written (trace st)))) \<Longrightarrow>
   edits (trace (try_query env a t i query st))
     = map (\<lambda>i. progress_text i t)
         (filter (\<lambda>i. i mod 10 = 0) (map fst (rows_written (trace (try_query env a t i query st)))))"
  by (simp add: step_defs proj_simps split: sum.split option.split prod.split)

lemma inv_header:
  "length (headers_written (trace st)) = (if header_written st then 1 else 0)
   \<and> (header_written st \<or> rows_written (trace st) = [])
   \<and> written (trace st) = headers_written (trace st) @ map snd (rows_written (trace st)) \<Longrightarrow>
   length (headers_written (trace (try_query env a t i query st)))
      = (if header_written (try_query env a t i query st) then 1 else 0)
   \<and> (header_written (try_query env a t i query st)
        \<or> rows_written (trace (try_query env a t i query st)) = [])
   \<and> written (trace (try_query env a t i query st))
        = headers_written (trace (try_query env a t i query st))
          @ map snd (rows_written (trace (try_query env a t i query st)))"
  by (cases "header_written st")
     (simp_all add: step_defs proj_simps split: sum.split option.split prod.split)



lemma step_headers:
  "headers_written (trace (try_query env a t i query st))
     = headers_written (trace st)
       @ (if header_written st then []
          else (case source_header env a i query of Inl e \<Rightarrow> [] | Inr h \<Rightarrow> [h]))"
  by (cases "header_written st")
     (simp_all add: step_defs proj_simps source_header_def
        split: sum.split option.split prod.split)

lemma step_header_written:
  "header_written (try_query env a t i query st)
     \<longleftrightarrow> header_written st \<or> (\<exists>h. source_header env a i query = Inr h)"
  by (cases "header_written st")
     (auto simp add: step_defs source_header_def split: sum.split option.split prod.split)


lemma for_queries_invariant:
  assumes step: "\<And>st i query. P st \<Longrightarrow> P (try_query env a t i query st)"
  shows "P st \<Longrightarrow> P (for_queries env a t iqs st)"
proof (induction iqs arbitrary: st)
  case Nil
  then show ?case by simp
next
  case (Cons p iqs)
  obtain i query where p: "p = (i, query)" by (cases p)
  have "P (if strip query = [] then st else try_query env a t i query st)"
    using Cons.prems step by simp
  then show ?case using Cons.IH p by simp
qed

lemma final_output:
  "output_io (final_state env a queries)
     = concat (map (writerow env) (written (trace (final_state env a queries))))"
  unfolding final_state_def
  by (rule for_queries_invariant [where P = "\<lambda>st. output_io st = concat (map (writerow env) (written (trace st)))"])
     (simp_all add: inv_output init_state_def proj_Nil)

lemma final_processed:
  "processed (final_state env a queries) = length (rows_written (trace (final_state env a queries)))"
  unfolding final_state_def
  by (rule for_queries_invariant [where P = "\<lambda>st. processed st = length (rows_written (trace st))"])
     (simp_all add: inv_processed init_state_def proj_Nil)

lemma final_loop_event: "list_all loop_event (trace (final_state env a queries))"
  unfolding final_state_def
  by (rule for_queries_invariant [where P = "\<lambda>st. list_all loop_event (trace st)"])
     (simp_all add: inv_loop_event init_state_def)

lemma final_edits:
  "edits (trace (final_state env a queries))
     = map (\<lambda>i. progress_text i (length queries))
         (filter (\<lambda>i. i mod 10 = 0) (map fst (rows_written (trace (final_state env a queries)))))"
  unfolding final_state_def
  by (rule for_queries_invariant [where P = "\<lambda>st. edits (trace st)
        = map (\<lambda>i. progress_text i (length queries))
            (filter (\<lambda>i. i mod 10 = 0) (map fst (rows_written (trace st))))"])
     (simp_all add: inv_edits init_state_def proj_Nil)

lemma final_header:
  "length (headers_written (trace (final_state env a queries)))
      = (if header_written (final_state env a queries) then 1 else 0)
   \<and> (header_written (final_state env a queries)
        \<or> rows_written (trace (final_state env a queries)) = [])
   \<and> written (trace (final_state env a queries))
        = headers_written (trace (final_state env a queries))
          @ map snd (rows_written (trace (final_state env a queries)))"
  unfolding final_state_def
  by (rule for_queries_invariant [where P = "\<lambda>st.
        length (headers_written (trace st)) = (if header_written st then 1 else 0)
        \<and> (header_written st \<or> rows_written (trace st) = [])
        \<and> written (trace st) = headers_written (trace st) @ map snd (rows_written (trace st))"])
     (simp_all add: inv_header init_state_def proj_Nil)


lemma for_queries_headers:
  "headers_written (trace (for_queries env a t iqs st))
     = headers_written (trace st)
       @ (if header_written st then []
          else (case first_header env a iqs of None \<Rightarrow> [] | Some h \<Rightarrow> [h]))"
proof (induction iqs arbitrary: st)
  case Nil
  show ?case by simp
next
  case (Cons p iqs)
  obtain i query where p: "p = (i, query)" by (cases p)
  show ?case
  proof (cases "strip query = []")
    case True
    then show ?thesis using Cons.IH [of st] p by simp
  next
    case False
    then show ?thesis
      using Cons.IH [of "try_query env a t i query st"] p
      by (auto simp: step_headers step_header_written split: sum.splits)
  qed
qed



lemma loop_event_quiet:
  "list_all loop_event tr \<Longrightarrow> replies tr = [] \<and> documents tr = []"
  by (induction tr) (auto simp: proj_simps loop_event_def split: event.splits)

lemma process_queries_ran:
  assumes "length queries \<le> MAX_QUERIES" "Organic env = Inr a"
  shows "lookups (snd (process_queries env queries)) = lookups (trace (final_state env a queries))"
    and "rows_written (snd (process_queries env queries)) = rows_written (trace (final_state env a queries))"
    and "headers_written (snd (process_queries env queries)) = headers_written (trace (final_state env a queries))"
    and "written (snd (process_queries env queries)) = written (trace (final_state env a queries))"
    and "edits (snd (process_queries env queries)) = edits (trace (final_state env a queries))"
    and "sleeps (snd (process_queries env queries)) = sleeps (trace (final_state env a queries))"
  using assms
  by (simp_all add: process_queries_def Let_def proj_simps split: sum.split)

lemma process_queries_not_ran:
  assumes "length queries > MAX_QUERIES \<or> (\<exists>e. Organic env = Inl e)"
  shows "lookups (snd (process_queries env queries)) = []"
    and "rows_written (snd (process_queries env queries)) = []"
    and "headers_written (snd (process_queries env queries)) = []"
    and "written (snd (process_queries env queries)) = []"
    and "edits (snd (process_queries env queries)) = []"
    and "sleeps (snd (process_queries env queries)) = []"
  using assms
  by (auto simp add: process_queries_def Let_def proj_simps split: sum.split)

lemma process_queries_payload:
  assumes "fst (process_queries env queries) = Some payload"
  shows "\<exists>a. length queries \<le> MAX_QUERIES \<and> Organic env = Inr a
           \<and> processed (final_state env a queries) \<noteq> 0
           \<and> encode_utf8_sig (output_io (final_state env a queries)) = Inr payload
           \<and> snd (process_queries env queries) = trace (final_state env a queries)"
  using assms
  by (auto simp add: process_queries_def Let_def split: sum.splits if_splits)

lemmas demo_defs = demo_env_def plain_csv_line_def str_def is_space_def strip_def lstrip_def
  rstrip_def init_state_def final_state_def step_defs proj_simps

lemma utf8_encode_ascii: "list_all (\<lambda>c. c < 0x80) s \<Longrightarrow> utf8_encode s = Inr (map of_nat s)"
  by (induction s) (simp_all add: utf8_char_def)

lemma contains_here: "contains sub (sub @ post)"
proof (cases "sub @ post")
  case Nil
  then show ?thesis by simp
next
  case (Cons c cs)
  have "take (length sub) (sub @ post) = sub" by simp
  then have "startswith (c # cs) sub" unfolding startswith_def Cons .
  then show ?thesis using Cons by simp
qed

lemma contains_append: "contains sub (pre @ sub @ post)"
  by (induction pre) (simp_all add: contains_here)


lemma documents_process_queries: "documents (snd (process_queries env queries)) = []"
proof (cases "length queries > MAX_QUERIES")
  case True
  then show ?thesis by (simp add: process_queries_def proj_simps)
next
  case False
  show ?thesis
  proof (cases "Organic env")
    case (Inl e)
    then show ?thesis using False by (simp add: process_queries_def proj_simps)
  next
    case (Inr a)
    have "documents (trace (final_state env a queries)) = []"
      using loop_event_quiet [OF final_loop_event, of env a queries] by simp
    then show ?thesis using False Inr
      by (simp add: process_queries_def Let_def proj_simps split: sum.split)
  qed
qed

lemma documents_extract_queries_from_file:
  "documents (snd (extract_queries_from_file h message)) = []"
  by (simp add: extract_queries_from_file_def download_and_extract_def proj_simps
      split: option.split sum.split)

lemma documents_message_queries: "documents (snd (message_queries h message)) = []"
  by (simp add: message_queries_def documents_extract_queries_from_file proj_simps
      split: option.split)

lemma documents_send_result:
  "set (documents (send_result h queries csv_data))
     \<subseteq> {(csv_data, attachment_name queries, Done (length queries))}"
  by (simp add: send_result_def proj_simps split: option.split)

lemma two_line_queries: "extract_queries_from_text (str ''a\<newline>b'') = [str ''a'', str ''b'']"
  by (simp add: extract_queries_from_text_def splitlines_def str_def is_linebreak_def is_space_def
      strip_def lstrip_def rstrip_def startswith_def)

lemma two_line_message_queries:
  "message_queries h two_line_message = (Some [str ''a'', str ''b''], [])"
  using two_line_queries
  by (simp add: message_queries_def two_line_message_def startswith_def str_def)

lemma first_lookup_fails_state:
  "final_state first_lookup_fails () [str ''a'', str ''b'']
      = \<lparr>output_io = str ''query,col2'' @ [13, 10] @ str ''b,2'' @ [13, 10],
         header_written = True, processed = 1,
         trace = [Search 1 (str ''a''), Search 2 (str ''b''), WriteHeader [str ''query'', str ''col2''],
                  WriteRow 2 [str ''b'', str ''2''], Sleep SLEEP_BETWEEN_REQUESTS]\<rparr>"
  by (simp add: first_lookup_fails_def demo_defs str_nat.simps)

lemma first_lookup_fails_run:
  "process_queries first_lookup_fails [str ''a'', str ''b'']
     = (Some (BOM_UTF8 @ map of_nat (str ''query,col2'' @ [13, 10] @ str ''b,2'' @ [13, 10])),
        [Search 1 (str ''a''), Search 2 (str ''b''), WriteHeader [str ''query'', str ''col2''],
         WriteRow 2 [str ''b'', str ''2''], Sleep SLEEP_BETWEEN_REQUESTS])"
proof -
  have org: "Organic first_lookup_fails = Inr ()"
    by (simp add: first_lookup_fails_def demo_env_def)
  have enc: "utf8_encode (str ''query,col2'' @ [13, 10] @ str ''b,2'' @ [13, 10])
      = Inr (map of_nat (str ''query,col2'' @ [13, 10] @ str ''b,2'' @ [13, 10]))"
    by (rule utf8_encode_ascii) (simp add: str_def)
  show ?thesis using org enc
    by (simp add: process_queries_def MAX_QUERIES_def first_lookup_fails_state encode_utf8_sig_def
        del: map_append)
qed

lemma all_lookups_succeed_run:
  "process_queries all_lookups_succeed [str ''a'', str ''b'']
     = (Some (BOM_UTF8 @ map of_nat
                (str ''query,col1'' @ [13, 10] @ str ''a,1'' @ [13, 10] @ str ''b,2'' @ [13, 10])),
        [Search 1 (str ''a''), WriteHeader [str ''query'', str ''col1''],
         WriteRow 1 [str ''a'', str ''1''], Sleep SLEEP_BETWEEN_REQUESTS,
         Search 2 (str ''b''), WriteRow 2 [str ''b'', str ''2''], Sleep SLEEP_BETWEEN_REQUESTS])"
proof -
  have st: "final_state all_lookups_succeed () [str ''a'', str ''b'']
      = \<lparr>output_io = str ''query,col1'' @ [13, 10] @ str ''a,1'' @ [13, 10] @ str ''b,2'' @ [13, 10],
         header_written = True, processed = 2,
         trace = [Search 1 (str ''a''), WriteHeader [str ''query'', str ''col1''],
           WriteRow 1 [str ''a'', str ''1''], Sleep SLEEP_BETWEEN_REQUESTS,
           Search 2 (str ''b''), WriteRow 2 [str ''b'', str ''2''], Sleep SLEEP_BETWEEN_REQUESTS]\<rparr>"
    by (simp add: all_lookups_succeed_def demo_defs str_nat.simps)
  have org: "Organic all_lookups_succeed = Inr ()"
    by (simp add: all_lookups_succeed_def demo_env_def)
  have enc: "utf8_encode (str ''query,col1'' @ [13, 10] @ str ''a,1'' @ [13, 10] @ str ''b,2'' @ [13, 10])
      = Inr (map of_nat (str ''query,col1'' @ [13, 10] @ str ''a,1'' @ [13, 10] @ str ''b,2'' @ [13, 10]))"
    by (rule utf8_encode_ascii) (simp add: str_def)
  show ?thesis using org enc
    by (simp add: process_queries_def MAX_QUERIES_def st encode_utf8_sig_def del: map_append)
qed

lemma two_query_name: "attachment_name [str ''a'', str ''b''] = str ''search_results_2_queries.csv''"
  by (simp add: attachment_name_def str_nat.simps str_def)

lemma step_processed_bound:
  "processed (try_query env a t i query st)
     \<le> processed st + (if (\<exists>r. source_row env a i query = Inr r) then 1 else 0)"
  by (simp add: step_defs source_row_def split: sum.split option.split prod.split)

lemma for_queries_processed_bound:
  "processed (for_queries env a t iqs st)
     \<le> processed st + length (filter (\<lambda>(i, query). \<exists>r. source_row env a i query = Inr r) iqs)"
proof (induction iqs arbitrary: st)
  case Nil
  show ?case by simp
next
  case (Cons p iqs)
  obtain i query where p: "p = (i, query)" by (cases p)
  let ?good = "\<lambda>(i, query). \<exists>r. source_row env a i query = Inr r"
  show ?case
  proof (cases "strip query = []")
    case True
    have "processed (for_queries env a t iqs st) \<le> processed st + length (filter ?good iqs)"
      by (rule Cons.IH)
    then show ?thesis using p True by auto
  next
    case False
    have one: "processed (try_query env a t i query st)
        \<le> processed st + (if (\<exists>r. source_row env a i query = Inr r) then 1 else 0)"
      by (rule step_processed_bound)
    have "processed (for_queries env a t iqs (try_query env a t i query st))
        \<le> processed (try_query env a t i query st) + length (filter ?good iqs)"
      by (rule Cons.IH)
    then show ?thesis using one p False by (auto split: if_splits)
  qed
qed

lemma processed_le_length: "processed (final_state env a queries) \<le> length queries"
proof -
  let ?good = "\<lambda>(i, query). \<exists>r. source_row env a i query = Inr r"
  have "processed (final_state env a queries) \<le> length (filter ?good (enumerate 1 queries))"
    using for_queries_processed_bound [of env a "length queries" "enumerate 1 queries" init_state]
    by (simp add: final_state_def init_state_def)
  also have "\<dots> \<le> length (enumerate 1 queries)" by (rule length_filter_le)
  finally show ?thesis by simp
qed

lemma processed_less_length:
  assumes "(i, query) \<in> set (enumerate 1 queries)" and "source_row env a i query = Inl e"
  shows "processed (final_state env a queries) < length queries"
proof -
  let ?good = "\<lambda>(i, query). \<exists>r. source_row env a i query = Inr r"
  have "processed (final_state env a queries) \<le> length (filter ?good (enumerate 1 queries))"
    using for_queries_processed_bound [of env a "length queries" "enumerate 1 queries" init_state]
    by (simp add: final_state_def init_state_def)
  also have "\<dots> < length (enumerate 1 queries)"
    using assms by (intro length_filter_less [of "(i, query)"]) simp_all
  finally show ?thesis by simp
qed



section \<open>The claims about \<open>process_queries\<close>\<close>

text \<open>
  C3. Batch ceiling: for every query sequence longer than \<open>MAX_QUERIES\<close> (10000),
  \<open>process_queries\<close> replies that there are too many queries and returns \<open>None\<close>:
  that reply is the only event, so no lookup is made.
\<close>

theorem batch_ceiling:
  "length queries > MAX_QUERIES \<Longrightarrow>
     process_queries env queries = (None, [Reply (TooManyQueries MAX_QUERIES (length queries))])
     \<and> lookups (snd (process_queries env queries)) = []"
  by (simp add: process_queries_def proj_simps)

text \<open>C3 at a batch of 10001 queries.\<close>

theorem batch_ceiling_witness:
  "length (replicate 10001 (str ''q'')) > MAX_QUERIES
   \<and> fst (process_queries (demo_env (\<lambda>i. True) (\<lambda>x. True) (\<lambda>x. True)) (replicate 10001 (str ''q''))) = None
   \<and> lookups (snd (process_queries (demo_env (\<lambda>i. True) (\<lambda>x. True) (\<lambda>x. True))
        (replicate 10001 (str ''q'')))) = []"
proof -
  have big: "length (replicate 10001 (str ''q'')) > MAX_QUERIES"
    by (simp add: MAX_QUERIES_def)
  show ?thesis
    using big batch_ceiling [OF big, of "demo_env (\<lambda>i. True) (\<lambda>x. True) (\<lambda>x. True)"]
    by (simp add: proj_simps)
qed

text \<open>
  C4. Empty result: when the loop has run and \<open>processed\<close> is 0 at its end,
  \<open>process_queries\<close> returns \<open>None\<close>, and its one reply is the notice of line 113
  that nothing was processed, not the failure notice of line 127.
\<close>

theorem empty_result:
  assumes "length queries \<le> MAX_QUERIES" and "Organic env = Inr a"
    and "processed (final_state env a queries) = 0"
  shows "fst (process_queries env queries) = None
         \<and> snd (process_queries env queries)
             = trace (final_state env a queries) @ [Reply NothingProcessed]
         \<and> replies (snd (process_queries env queries)) = [NothingProcessed]"
  using assms loop_event_quiet [OF final_loop_event, of env a queries]
  by (simp add: process_queries_def Let_def proj_simps)

text \<open>C4 at two queries whose lookups both raise.\<close>

theorem empty_result_witness:
  "processed (final_state (demo_env (\<lambda>i. False) (\<lambda>x. True) (\<lambda>x. True)) () [str ''a'', str ''b'']) = 0
   \<and> process_queries (demo_env (\<lambda>i. False) (\<lambda>x. True) (\<lambda>x. True)) [str ''a'', str ''b'']
       = (None, [Search 1 (str ''a''), Search 2 (str ''b''), Reply NothingProcessed])"
proof -
  let ?env = "demo_env (\<lambda>i. False) (\<lambda>x. True) (\<lambda>x. True)"
  have st: "final_state ?env () [str ''a'', str ''b'']
      = \<lparr>output_io = [], header_written = False, processed = 0,
         trace = [Search 1 (str ''a''), Search 2 (str ''b'')]\<rparr>"
    by (simp add: demo_defs)
  have "length [str ''a'', str ''b''] \<le> MAX_QUERIES" by (simp add: MAX_QUERIES_def)
  moreover have "Organic ?env = Inr ()" by (simp add: demo_env_def)
  moreover have "processed (final_state ?env () [str ''a'', str ''b'']) = 0" by (simp add: st)
  ultimately have "fst (process_queries ?env [str ''a'', str ''b'']) = None
         \<and> snd (process_queries ?env [str ''a'', str ''b''])
             = trace (final_state ?env () [str ''a'', str ''b'']) @ [Reply NothingProcessed]
         \<and> replies (snd (process_queries ?env [str ''a'', str ''b''])) = [NothingProcessed]"
    by (rule empty_result)
  then show ?thesis by (simp add: st prod_eq_iff)
qed

text \<open>
  C7. Report encoding: whenever \<open>process_queries\<close> returns bytes, they are the three
  bytes EF BB BF of the byte-order mark followed by the UTF-8 encoding of the text
  accumulated in \<open>output\<close>.
\<close>

theorem report_encoding:
  "fst (process_queries env queries) = Some payload \<Longrightarrow>
     \<exists>a body. Organic env = Inr a
       \<and> utf8_encode (output_io (final_state env a queries)) = Inr body
       \<and> payload = BOM_UTF8 @ body
       \<and> take 3 payload = [0xEF, 0xBB, 0xBF]"
proof -
  assume "fst (process_queries env queries) = Some payload"
  then obtain a where a: "Organic env = Inr a"
      "encode_utf8_sig (output_io (final_state env a queries)) = Inr payload"
    using process_queries_payload by blast
  then show ?thesis
    by (auto simp: encode_utf8_sig_def BOM_UTF8_def split: sum.splits)
qed


text \<open>C7 at one query that succeeds: the header line and one row.\<close>

theorem report_encoding_witness:
  "fst (process_queries (demo_env (\<lambda>i. True) (\<lambda>x. True) (\<lambda>x. True)) [str ''a''])
     = Some (BOM_UTF8 @ map of_nat (str ''query,col1'' @ [13, 10] @ str ''a,1'' @ [13, 10]))
   \<and> take 3 (BOM_UTF8 @ map of_nat (str ''query,col1'' @ [13, 10] @ str ''a,1'' @ [13, 10]))
       = [0xEF, 0xBB, 0xBF :: byte]"
proof -
  let ?env = "demo_env (\<lambda>i. True) (\<lambda>x. True) (\<lambda>x. True)"
  let ?csv = "str ''query,col1'' @ [13, 10] @ str ''a,1'' @ [13, 10]"
  have st: "final_state ?env () [str ''a'']
      = \<lparr>output_io = ?csv, header_written = True, processed = 1,
         trace = [Search 1 (str ''a''), WriteHeader [str ''query'', str ''col1''],
                  WriteRow 1 [str ''a'', str ''1''], Sleep SLEEP_BETWEEN_REQUESTS]\<rparr>"
    by (simp add: demo_defs str_nat.simps)
  have enc: "utf8_encode ?csv = Inr (map of_nat ?csv)"
    by (rule utf8_encode_ascii) (simp add: str_def)
  have org: "Organic ?env = Inr ()" by (simp add: demo_env_def)
  have run: "fst (process_queries ?env [str ''a'']) = Some (BOM_UTF8 @ map of_nat ?csv)"
    using enc org by (simp add: process_queries_def MAX_QUERIES_def st encode_utf8_sig_def
        del: map_append)
  from report_encoding [OF run] show ?thesis using run by (auto simp del: map_append)
qed

text \<open>
  C5, amended. Progress cadence and content: \<open>process_queries\<close> edits the status
  message once for every row it has written at a 1-based index that is a multiple of 10,
  in order, and the text of the edit made at index \<open>i\<close> contains \<open>i/total\<close>: the
  index of the query and the length of the batch, not the number of processed queries.
\<close>

theorem progress_cadence:
  "edits (snd (process_queries env queries))
     = map (\<lambda>i. progress_text i (length queries))
         (filter (\<lambda>i. i mod 10 = 0) (map fst (rows_written (snd (process_queries env queries)))))
   \<and> contains (str_nat i @ str ''/'' @ str_nat (length queries)) (progress_text i (length queries))"
proof -
  have slash: "contains (str_nat i @ str ''/'' @ str_nat (length queries))
                (progress_text i (length queries))"
    using contains_append [of "str_nat i @ str ''/'' @ str_nat (length queries)" progress_prefix
        progress_suffix]
    by (simp add: progress_text_def)
  show ?thesis
  proof (cases "length queries > MAX_QUERIES \<or> (\<exists>e. Organic env = Inl e)")
    case True
    then show ?thesis using slash
      by (simp add: process_queries_not_ran(2,5) del: not_less)
  next
    case False
    then obtain a where a: "length queries \<le> MAX_QUERIES" "Organic env = Inr a"
      by (cases "Organic env") auto
    show ?thesis using slash final_edits [of env a queries]
      by (simp add: process_queries_ran(2,5) [OF a])
  qed
qed

text \<open>
  C6. Pacing: two non-empty queries, the lookup of the first raises. Both lookups are
  made, and the run sleeps once, after the second query: the handler of line 107
  continues the loop without the delay of line 105.
\<close>

theorem pacing_skipped_after_failure:
  "snd (process_queries first_lookup_fails [str ''a'', str ''b''])
     = [Search 1 (str ''a''), Search 2 (str ''b''), WriteHeader [str ''query'', str ''col2''],
        WriteRow 2 [str ''b'', str ''2''], Sleep SLEEP_BETWEEN_REQUESTS]
   \<and> sleeps (snd (process_queries first_lookup_fails [str ''a'', str ''b'']))
       = [SLEEP_BETWEEN_REQUESTS]"
  by (simp add: first_lookup_fails_run proj_simps)

text \<open>
  C5 as stated fails: ten queries, the lookup of the first raises. The edit at index 10
  says \<open>10/10\<close> while nine queries are processed, and its text does not contain
  \<open>9/10\<close>.
\<close>

theorem progress_count_counterexample:
  "edits (snd (process_queries first_lookup_fails ten_queries)) = [progress_text 10 10]
   \<and> processed (final_state first_lookup_fails () ten_queries) = 9
   \<and> \<not> contains (str_nat 9 @ str ''/'' @ str_nat 10) (progress_text 10 10)"
proof -
  have org: "Organic first_lookup_fails = Inr ()"
    by (simp add: first_lookup_fails_def demo_env_def)
  have len: "length ten_queries \<le> MAX_QUERIES" by (simp add: ten_queries_def MAX_QUERIES_def)
  have rows: "map fst (rows_written (trace (final_state first_lookup_fails () ten_queries)))
      = [2, 3, 4, 5, 6, 7, 8, 9, 10]"
    by (simp add: first_lookup_fails_def ten_queries_def demo_defs)
  have len10: "length ten_queries = 10" by (simp add: ten_queries_def)
  have "edits (trace (final_state first_lookup_fails () ten_queries)) = [progress_text 10 10]"
    by (simp add: final_edits rows len10)
  then have "edits (snd (process_queries first_lookup_fails ten_queries)) = [progress_text 10 10]"
    by (simp add: process_queries_ran(5) [OF len org])
  moreover have "length (map fst (rows_written (trace (final_state first_lookup_fails () ten_queries)))) = 9"
    by (simp only: rows) simp
  then have "processed (final_state first_lookup_fails () ten_queries) = 9"
    by (simp add: final_processed)
  moreover have "\<not> contains (str_nat 9 @ str ''/'' @ str_nat 10) (progress_text 10 10)"
    by (simp add: progress_text_def progress_prefix_def progress_suffix_def str_nat.simps str_def
        startswith_def)
  ultimately show ?thesis by simp
qed


text \<open>
  C2, amended. Header-once semantics: in a batch within the ceiling, the header written
  is the header of the first non-blank query for which \<open>search_xmlriver\<close> and the
  header derivation both succeed, whether or not a row is then derived from that record;
  it is written once (never, when there is no such query); whatever else is written is
  rows, after it, and \<open>output\<close> is exactly these lines. The header a later record
  implies is not consulted.
\<close>

theorem header_once:
  assumes "length queries \<le> MAX_QUERIES" and "Organic env = Inr a"
  shows "headers_written (snd (process_queries env queries))
           = (case first_header env a (enumerate 1 queries) of None \<Rightarrow> [] | Some h \<Rightarrow> [h])
         \<and> written (snd (process_queries env queries))
             = headers_written (snd (process_queries env queries))
               @ map snd (rows_written (snd (process_queries env queries)))
         \<and> output_io (final_state env a queries)
             = concat (map (writerow env) (written (snd (process_queries env queries))))"
proof -
  have "headers_written (trace (final_state env a queries))
      = (case first_header env a (enumerate 1 queries) of None \<Rightarrow> [] | Some h \<Rightarrow> [h])"
    by (simp add: final_state_def for_queries_headers init_state_def proj_Nil)
  then show ?thesis
    using final_header [of env a queries] final_output [of env a queries]
    by (simp add: process_queries_ran(2,3,4) [OF assms])
qed


text \<open>The definitions the examples are evaluated with.\<close>

lemmas eval_defs = demo_env_def plain_csv_line_def str_def is_space_def strip_def lstrip_def
  rstrip_def source_row_def source_header_def others_def nonblank_def



text \<open>
  C2, amended, at three queries: the header derivation raises for the first record and
  the row derivation for the second.
\<close>

theorem header_once_witness:
  "headers_written (snd (process_queries derivations_fail [str ''a'', str ''b'', str ''c'']))
     = [[str ''query'', str ''col2'']]
   \<and> written (snd (process_queries derivations_fail [str ''a'', str ''b'', str ''c'']))
       = [str ''query'', str ''col2'']
         # map snd (rows_written (snd (process_queries derivations_fail [str ''a'', str ''b'', str ''c''])))"
proof -
  let ?Q = "[str ''a'', str ''b'', str ''c'']"
  have len: "length ?Q \<le> MAX_QUERIES" by (simp add: MAX_QUERIES_def)
  have org: "Organic derivations_fail = Inr ()"
    by (simp add: derivations_fail_def demo_env_def)
  have first: "first_header derivations_fail () (enumerate 1 ?Q) = Some [str ''query'', str ''col2'']"
    by (simp add: derivations_fail_def eval_defs str_nat.simps)
  from header_once [OF len org] show ?thesis unfolding first by simp
qed

text \<open>
  C2 as stated fails at the same three queries. The header written is the one of the
  second record, for which the row derivation raises: no row comes of it. It is neither
  the header of the first record \<open>search_xmlriver\<close> returns (for that record the header
  derivation raises) nor the header of the first record a row is written for (the third,
  which implies another column).
\<close>

theorem header_source_counterexample:
  "headers_written (snd (process_queries derivations_fail [str ''a'', str ''b'', str ''c'']))
     = [[str ''query'', str ''col2'']]
   \<and> rows_written (snd (process_queries derivations_fail [str ''a'', str ''b'', str ''c'']))
       = [(3, [str ''c'', str ''3''])]
   \<and> search_xmlriver derivations_fail () 1 (str ''a'') = Inr 1
   \<and> XmlTree_get_header derivations_fail 1 = Inl (Error (str ''no results''))
   \<and> source_row derivations_fail () 2 (str ''b'') = Inl (Error (str ''no results''))
   \<and> source_header derivations_fail () 3 (str ''c'') = Inr [str ''query'', str ''col3'']"
proof -
  let ?Q = "[str ''a'', str ''b'', str ''c'']"
  have len: "length ?Q \<le> MAX_QUERIES" by (simp add: MAX_QUERIES_def)
  have org: "Organic derivations_fail = Inr ()"
    by (simp add: derivations_fail_def demo_env_def)
  have tr: "trace (final_state derivations_fail () ?Q)
      = [Search 1 (str ''a''), Search 2 (str ''b''), WriteHeader [str ''query'', str ''col2''],
         Search 3 (str ''c''), WriteRow 3 [str ''c'', str ''3''], Sleep SLEEP_BETWEEN_REQUESTS]"
    by (simp add: derivations_fail_def demo_defs str_nat.simps)
  have "headers_written (snd (process_queries derivations_fail ?Q)) = [[str ''query'', str ''col2'']]"
    by (simp add: process_queries_ran(3) [OF len org] tr proj_simps)
  moreover have "rows_written (snd (process_queries derivations_fail ?Q)) = [(3, [str ''c'', str ''3''])]"
    by (simp add: process_queries_ran(2) [OF len org] tr proj_simps)
  moreover have "search_xmlriver derivations_fail () 1 (str ''a'') = Inr 1"
    "XmlTree_get_header derivations_fail 1 = Inl (Error (str ''no results''))"
    "source_row derivations_fail () 2 (str ''b'') = Inl (Error (str ''no results''))"
    "source_header derivations_fail () 3 (str ''c'') = Inr [str ''query'', str ''col3'']"
    by (simp_all add: derivations_fail_def eval_defs str_nat.simps)
  ultimately show ?thesis by simp
qed

section \<open>The claims about \<open>handle_message\<close> and \<open>extract_queries_from_file\<close>\<close>

text \<open>
  C9, amended. Attachment naming: whenever \<open>handle_message\<close> sends a document, its
  content is the payload \<open>process_queries\<close> returned for the queries of the message,
  and its file name is \<open>search_results_N_queries.csv\<close> with \<open>N\<close> the number of
  these queries, \<open>len(queries)\<close>: the size of the batch. The processed count is at most
  \<open>N\<close>, and it is \<open>N\<close> only when the lookup and the row derivation succeeded for
  every query of the batch.
\<close>

theorem attachment_name_is_batch_size:
  assumes "(csv_data, name, caption) \<in> set (documents (handle_message env h message))"
  shows "\<exists>queries a.
           fst (message_queries h message :: pystr list option \<times> 'r event list) = Some queries
           \<and> name = str ''search_results_'' @ str_nat (length queries) @ str ''_queries.csv''
           \<and> fst (process_queries (env :: ('a, 'x, 'r) collaborators) queries) = Some csv_data
           \<and> Organic env = Inr a
           \<and> processed (final_state env a queries) \<le> length queries
           \<and> (processed (final_state env a queries) = length queries \<longrightarrow>
                (\<forall>(i, query) \<in> set (enumerate 1 queries). \<exists>r. source_row env a i query = Inr r))"
proof -
  obtain qo evs where mq: "(message_queries h message :: pystr list option \<times> 'r event list) = (qo, evs)"
    by (cases "message_queries h message :: pystr list option \<times> 'r event list")
  have evs: "documents evs = []" using documents_message_queries [of h message] mq
    by (metis snd_conv)
  show ?thesis
  proof (cases qo)
    case None
    then show ?thesis using assms mq evs by (simp add: handle_message_def)
  next
    case (Some queries)
    show ?thesis
    proof (cases "queries = []")
      case True
      then show ?thesis using assms mq evs Some by (simp add: handle_message_def proj_simps)
    next
      case False
      obtain res run where pq: "process_queries env queries = (res, run)"
        by (cases "process_queries env queries")
      have run: "documents run = []" using documents_process_queries [of env queries] pq by simp
      show ?thesis
      proof (cases res)
        case None
        then show ?thesis using assms mq evs Some False pq run
          by (simp add: handle_message_def proj_simps)
      next
        case (Some data)
        have "(csv_data, name, caption)
              \<in> set (documents (send_result h queries data :: 'r event list))"
          using assms mq evs \<open>qo = Some queries\<close> False pq run Some
          by (simp add: handle_message_def proj_simps)
        then have sent: "csv_data = data \<and> name = attachment_name queries"
          using documents_send_result [of h queries data, where ?'a = 'r] by auto
        then have payload: "fst (process_queries env queries) = Some csv_data"
          using pq Some by simp
        then obtain a where a: "Organic env = Inr a"
          using process_queries_payload by blast
        have all_ok: "\<forall>(i, query) \<in> set (enumerate 1 queries). \<exists>r. source_row env a i query = Inr r"
          if full: "processed (final_state env a queries) = length queries"
        proof (clarify)
          fix i query
          assume mem: "(i, query) \<in> set (enumerate 1 queries)"
          show "\<exists>r. source_row env a i query = Inr r"
          proof (cases "source_row env a i query")
            case (Inl e)
            then have "processed (final_state env a queries) < length queries"
              using mem by (rule processed_less_length [rotated])
            then show ?thesis using full by simp
          next
            case (Inr r)
            then show ?thesis by blast
          qed
        qed
        have "fst (message_queries h message :: pystr list option \<times> 'r event list) = Some queries"
          using mq \<open>qo = Some queries\<close> by simp
        moreover have "name = str ''search_results_'' @ str_nat (length queries) @ str ''_queries.csv''"
          using sent by (simp add: attachment_name_def)
        ultimately show ?thesis
          using payload a all_ok processed_le_length [of env a queries] by blast
      qed
    qed
  qed
qed

text \<open>C9, amended, at a message of two lines whose lookups succeed.\<close>

theorem attachment_name_witness:
  "documents (handle_message all_lookups_succeed (demo_host []) two_line_message)
     = [(BOM_UTF8 @ map of_nat
           (str ''query,col1'' @ [13, 10] @ str ''a,1'' @ [13, 10] @ str ''b,2'' @ [13, 10]),
         str ''search_results_2_queries.csv'', Done 2)]
   \<and> (\<exists>queries. fst (message_queries (demo_host []) two_line_message
                       :: pystr list option \<times> pystr list event list) = Some queries
         \<and> str ''search_results_2_queries.csv''
             = str ''search_results_'' @ str_nat (length queries) @ str ''_queries.csv'')"
proof -
  let ?D = "BOM_UTF8 @ map of_nat
           (str ''query,col1'' @ [13, 10] @ str ''a,1'' @ [13, 10] @ str ''b,2'' @ [13, 10])"
  have docs: "documents (handle_message all_lookups_succeed (demo_host []) two_line_message)
     = [(?D, str ''search_results_2_queries.csv'', Done 2)]"
    by (simp add: handle_message_def two_line_message_queries all_lookups_succeed_run
        send_result_def demo_host_def two_query_name proj_simps del: map_append)
  then have "(?D, str ''search_results_2_queries.csv'', Done 2)
      \<in> set (documents (handle_message all_lookups_succeed (demo_host []) two_line_message))"
    by simp
  from attachment_name_is_batch_size [OF this] docs show ?thesis by blast
qed

text \<open>
  C9 as stated fails: a message of two lines, the lookup of the first raises. One query
  is processed, the attachment is named \<open>search_results_2_queries.csv\<close>, and the
  number 1 is nowhere in that name.
\<close>

theorem attachment_name_counterexample:
  "map (\<lambda>(csv_data, name, caption). name)
      (documents (handle_message first_lookup_fails (demo_host []) two_line_message))
     = [str ''search_results_2_queries.csv'']
   \<and> processed (final_state first_lookup_fails () [str ''a'', str ''b'']) = 1
   \<and> \<not> contains (str_nat 1) (str ''search_results_2_queries.csv'')"
proof -
  have "documents (handle_message first_lookup_fails (demo_host []) two_line_message)
     = [(BOM_UTF8 @ map of_nat (str ''query,col2'' @ [13, 10] @ str ''b,2'' @ [13, 10]),
         str ''search_results_2_queries.csv'', Done 2)]"
    by (simp add: handle_message_def two_line_message_queries first_lookup_fails_run
        send_result_def demo_host_def two_query_name proj_simps del: map_append)
  moreover have "\<not> contains (str_nat 1) (str ''search_results_2_queries.csv'')"
    by (simp add: str_nat.simps str_def startswith_def)
  ultimately show ?thesis by (simp add: first_lookup_fails_state)
qed

text \<open>
  C10, amended. For a message with a document, \<open>extract_queries_from_file\<close> rejects
  the file as too large exactly when the declared \<open>file_size\<close> is there, is not 0 and
  exceeds \<open>MAX_FILE_SIZE\<close>. When the declared size is \<open>None\<close> or 0 it goes on to the
  check of the MIME type; a document of an accepted type is then downloaded and decoded,
  whatever the length of the downloaded content, and a document of another type is
  refused as not a text file.
\<close>

theorem size_check_only_with_declared_size:
  assumes "msg_document message = Some doc"
  shows "(Reply (FileTooLarge (MAX_FILE_SIZE div (1024 * 1024)))
            \<in> set (snd (extract_queries_from_file h message :: pystr list option \<times> 'r event list))
          \<longleftrightarrow> (\<exists>n. file_size doc = Some n \<and> n \<noteq> 0 \<and> n > MAX_FILE_SIZE))
         \<and> (file_size doc = None \<or> file_size doc = Some 0 \<longrightarrow>
              (extract_queries_from_file h message :: pystr list option \<times> 'r event list)
                = (if mime_accepted doc then download_and_extract h doc
                   else (None, [Reply NotTextFile]))
              \<and> (mime_accepted doc \<longrightarrow>
                    GetFile (file_id doc)
                      \<in> set (snd (extract_queries_from_file h message
                                    :: pystr list option \<times> 'r event list)))
              \<and> (\<forall>file_path buffer.
                    mime_accepted doc \<and> get_file h (file_id doc) = Inr file_path
                    \<and> download_file h file_path = Inr buffer \<longrightarrow>
                    fst (extract_queries_from_file h message :: pystr list option \<times> 'r event list)
                      = map_option extract_queries_from_text
                          (first_decoding (decode h) encodings buffer)))"
  using assms
  by (auto simp add: extract_queries_from_file_def download_and_extract_def size_rejected_def
      split: option.splits sum.splits)

text \<open>
  C10, amended, at a text document of declared size 0 whose content has 11000000 bytes:
  it is downloaded and decoded.
\<close>

theorem size_check_witness:
  "int (length big_content) > MAX_FILE_SIZE
   \<and> (extract_queries_from_file (demo_host big_content) big_message
        :: pystr list option \<times> pystr list event list)
       = (Some (extract_queries_from_text (map unat big_content)),
          [GetFile (str ''f2''), DownloadFile (str ''documents/file_0.txt'')])"
proof -
  have doc: "msg_document big_message = Some big_document" by (simp add: big_message_def)
  have size: "file_size big_document = None \<or> file_size big_document = Some 0"
    by (simp add: big_document_def)
  have mime: "mime_accepted big_document" by (simp add: mime_accepted_def big_document_def)
  have ascii: "list_all (\<lambda>b. b < 0x80) big_content"
    by (simp add: big_content_def list_all_iff)
  have dl: "(download_and_extract (demo_host big_content) big_document
              :: pystr list option \<times> pystr list event list)
      = (Some (extract_queries_from_text (map unat big_content)),
         [GetFile (str ''f2''), DownloadFile (str ''documents/file_0.txt'')])"
    using ascii by (simp add: download_and_extract_def demo_host_def encodings_def big_document_def)
  have "int (length big_content) > MAX_FILE_SIZE"
    by (simp add: big_content_def MAX_FILE_SIZE_def)
  then show ?thesis
    using size_check_only_with_declared_size
      [OF doc, where ?'r = "pystr list" and h = "demo_host big_content"] size mime dl
    by simp
qed

text \<open>
  C10 as stated fails: a document with no declared size and the MIME type
  \<open>image/png\<close> is refused as not a text file, and nothing is downloaded.
\<close>

theorem size_check_counterexample:
  "file_size png_document = None
   \<and> (extract_queries_from_file (demo_host big_content) png_message
        :: pystr list option \<times> pystr list event list)
       = (None, [Reply NotTextFile])"
  by (simp add: extract_queries_from_file_def png_message_def png_document_def size_rejected_def
      mime_accepted_def str_def)

section \<open>Trimming and splitting\<close>

lemma is_linebreak_space: "is_linebreak c \<Longrightarrow> is_space c"
  by (auto simp: is_linebreak_def is_space_def)


lemma dropWhile_all: "\<forall>x\<in>set w. P x \<Longrightarrow> dropWhile P (w @ s) = dropWhile P s"
  by (induction w) auto

lemma rstrip_trail: "\<forall>x\<in>set w. is_space x \<Longrightarrow> rstrip (s @ w) = rstrip s"
  by (simp add: rstrip_def dropWhile_all)

lemma rstrip_all_space: "\<forall>x\<in>set w. is_space x \<Longrightarrow> rstrip w = []"
  using rstrip_trail [of w "[]"] by (simp add: rstrip_def)

lemma rstrip_lead:
  "\<not> (\<forall>x\<in>set s. is_space x) \<Longrightarrow> rstrip (w @ s) = w @ rstrip s"
proof -
  assume "\<not> (\<forall>x\<in>set s. is_space x)"
  then obtain x where "x \<in> set (rev s)" "\<not> is_space x" by auto
  then have "dropWhile is_space (rev s @ rev w) = dropWhile is_space (rev s) @ rev w"
    by (rule dropWhile_append1)
  then show ?thesis by (simp add: rstrip_def)
qed

lemma strip_trail: "\<forall>x\<in>set w. is_space x \<Longrightarrow> strip (s @ w) = strip s"
  by (simp add: strip_def rstrip_trail)

lemma strip_all_space: "\<forall>x\<in>set w. is_space x \<Longrightarrow> strip w = []"
  by (simp add: strip_def rstrip_all_space lstrip_def)

lemma strip_lead: "\<forall>x\<in>set w. is_space x \<Longrightarrow> strip (w @ s) = strip s"
proof (cases "\<forall>x\<in>set s. is_space x")
  case True
  assume "\<forall>x\<in>set w. is_space x"
  with True have "\<forall>x\<in>set (w @ s). is_space x" by auto
  then have "strip (w @ s) = []" by (rule strip_all_space)
  with True show ?thesis by (simp add: strip_all_space)
next
  case False
  assume w: "\<forall>x\<in>set w. is_space x"
  from False have "rstrip (w @ s) = w @ rstrip s" by (rule rstrip_lead)
  with w show ?thesis by (simp add: strip_def lstrip_def dropWhile_all)
qed

lemma not_query_empty: "\<not> is_query_line []"
  by (simp add: is_query_line_def)

lemma query_lines_cur_space: "\<forall>x\<in>set w. is_space x \<Longrightarrow> query_lines_from (cur @ w) t = query_lines_from cur t"
proof (induction t arbitrary: cur)
  case Nil
  then show ?case
    by (auto simp: query_lines_from_def strip_lead strip_all_space not_query_empty)
next
  case (Cons c t)
  show ?case
  proof (cases "is_linebreak c")
    case True
    with Cons.prems show ?thesis by (simp add: query_lines_from_def strip_lead)
  next
    case False
    have "query_lines_from ((c # cur) @ w) t = query_lines_from (c # cur) t" using Cons.IH [OF Cons.prems] .
    with False show ?thesis by (simp add: query_lines_from_def)
  qed
qed

lemma query_lines_Cons_linebreak:
  "is_linebreak c \<Longrightarrow> \<forall>x\<in>set cur. is_space x \<Longrightarrow>
     query_lines_from cur (c # cs) = query_lines_from [] (if c = 13 \<and> cs \<noteq> [] \<and> hd cs = 10 then tl cs else cs)"
  by (simp add: query_lines_from_def strip_all_space not_query_empty)

lemma query_lines_skip_nl: "query_lines_from [] (10 # ds) = query_lines_from [] ds"
  by (simp add: query_lines_from_def is_linebreak_def strip_all_space not_query_empty)

lemma query_lines_lstrip: "query_lines_from [] (dropWhile is_space t) = query_lines_from [] t"
proof (induction t)
  case Nil
  show ?case by simp
next
  case (Cons c t)
  show ?case
  proof (cases "is_space c")
    case False then show ?thesis by simp
  next
    case sp: True
    show ?thesis
    proof (cases "is_linebreak c")
      case True
      show ?thesis
      proof (cases "c = 13 \<and> t \<noteq> [] \<and> hd t = 10")
        case True
        then obtain ds where t: "t = 10 # ds" by (cases t) auto
        have "query_lines_from [] (c # t) = query_lines_from [] ds" using True \<open>is_linebreak c\<close> t
          by (simp add: query_lines_Cons_linebreak)
        also have "\<dots> = query_lines_from [] t" by (simp add: t query_lines_skip_nl)
        finally show ?thesis using sp Cons.IH by simp
      next
        case False
        then have "query_lines_from [] (c # t) = query_lines_from [] t" using \<open>is_linebreak c\<close>
          by (auto simp: query_lines_Cons_linebreak)
        then show ?thesis using sp Cons.IH by simp
      qed
    next
      case False
      then have "query_lines_from [] (c # t) = query_lines_from [c] t" by (simp add: query_lines_from_def)
      also have "\<dots> = query_lines_from [] t" using query_lines_cur_space [of "[c]" "[]" t] sp by simp
      finally show ?thesis using sp Cons.IH by simp
    qed
  qed
qed

lemma query_lines_all_space: "\<forall>x\<in>set w. is_space x \<Longrightarrow> \<forall>x\<in>set cur. is_space x \<Longrightarrow> query_lines_from cur w = []"
proof (induction cur w rule: splitlines_from.induct)
  case (1 cur)
  then show ?case by (simp add: query_lines_from_def strip_all_space not_query_empty)
next
  case (2 cur c cs)
  show ?case
  proof (cases "is_linebreak c")
    case True
    have "query_lines_from cur (c # cs) = query_lines_from [] (if c = 13 \<and> cs \<noteq> [] \<and> hd cs = 10 then tl cs else cs)"
      using True "2.prems"(2) by (rule query_lines_Cons_linebreak)
    also have "\<dots> = []"
      using "2.IH"(1) [OF True] "2.prems"(1)
      by (cases cs) auto
    finally show ?thesis .
  next
    case False
    then have "query_lines_from cur (c # cs) = query_lines_from (c # cur) cs" by (simp add: query_lines_from_def)
    also have "\<dots> = []" using "2.IH"(2) [OF False] "2.prems" by simp
    finally show ?thesis .
  qed
qed

lemma query_lines_Nil: "query_lines_from cur [] = filter is_query_line [strip (rev cur)]"
  by (simp add: query_lines_from_def strip_def lstrip_def rstrip_def not_query_empty)

lemma query_lines_linebreak:
  "is_linebreak c \<Longrightarrow>
     query_lines_from cur (c # cs) = filter is_query_line [strip (rev cur)]
        @ query_lines_from [] (if c = 13 \<and> cs \<noteq> [] \<and> hd cs = 10 then tl cs else cs)"
  by (simp add: query_lines_from_def)

lemma query_lines_space_tail: "\<forall>x\<in>set w. is_space x \<Longrightarrow> query_lines_from cur w = query_lines_from cur []"
proof (induction cur w rule: splitlines_from.induct)
  case (1 cur)
  show ?case by simp
next
  case (2 cur c cs)
  show ?case
  proof (cases "is_linebreak c")
    case True
    have "\<forall>x\<in>set (if c = 13 \<and> cs \<noteq> [] \<and> hd cs = 10 then tl cs else cs). is_space x"
      using "2.prems" by (cases cs) auto
    then have "query_lines_from [] (if c = 13 \<and> cs \<noteq> [] \<and> hd cs = 10 then tl cs else cs) = []"
      by (simp add: query_lines_all_space)
    then show ?thesis using True by (simp add: query_lines_linebreak query_lines_Nil)
  next
    case False
    then have "query_lines_from cur (c # cs) = query_lines_from (c # cur) cs" by (simp add: query_lines_from_def)
    also have "\<dots> = query_lines_from (c # cur) []" using "2.IH"(2) [OF False] "2.prems" by simp
    also have "\<dots> = query_lines_from cur []" using "2.prems" by (simp add: query_lines_Nil strip_trail)
    finally show ?thesis .
  qed
qed

lemma query_lines_trail: "\<forall>x\<in>set w. is_space x \<Longrightarrow> query_lines_from cur (t @ w) = query_lines_from cur t"
proof (induction cur t rule: splitlines_from.induct)
  case (1 cur)
  then show ?case using query_lines_space_tail [of w cur] by simp
next
  case (2 cur c cs)
  show ?case
  proof (cases "is_linebreak c")
    case True
    show ?thesis
    proof (cases cs)
      case Nil
      have "\<forall>x\<in>set (if c = 13 \<and> w \<noteq> [] \<and> hd w = 10 then tl w else w). is_space x"
        using "2.prems" by (cases w) auto
      then have "query_lines_from [] (if c = 13 \<and> w \<noteq> [] \<and> hd w = 10 then tl w else w) = []"
        by (simp add: query_lines_all_space)
      then show ?thesis using True Nil by (simp add: query_lines_linebreak query_lines_Nil not_query_empty strip_all_space)
    next
      case (Cons d ds)
      have nxt: "(if c = 13 \<and> cs @ w \<noteq> [] \<and> hd (cs @ w) = 10 then tl (cs @ w) else cs @ w)
                 = (if c = 13 \<and> cs \<noteq> [] \<and> hd cs = 10 then tl cs else cs) @ w"
        using Cons by simp
      have "query_lines_from cur ((c # cs) @ w)
            = filter is_query_line [strip (rev cur)]
              @ query_lines_from [] ((if c = 13 \<and> cs \<noteq> [] \<and> hd cs = 10 then tl cs else cs) @ w)"
        using query_lines_linebreak [OF True, of cur "cs @ w"] nxt by simp
      also have "\<dots> = filter is_query_line [strip (rev cur)]
              @ query_lines_from [] (if c = 13 \<and> cs \<noteq> [] \<and> hd cs = 10 then tl cs else cs)"
        using "2.IH"(1) [OF True "2.prems"] by simp
      also have "\<dots> = query_lines_from cur (c # cs)"
        using query_lines_linebreak [OF True, of cur cs] by simp
      finally show ?thesis .
    qed
  next
    case False
    have "query_lines_from (c # cur) (cs @ w) = query_lines_from (c # cur) cs" using "2.IH"(2) [OF False "2.prems"] .
    with False show ?thesis by (simp add: query_lines_from_def)
  qed
qed

lemma rstrip_decomp: "\<exists>w. (\<forall>x\<in>set w. is_space x) \<and> t = rstrip t @ w"
proof -
  have "rev t = takeWhile is_space (rev t) @ dropWhile is_space (rev t)" by simp
  then have "t = rev (dropWhile is_space (rev t)) @ rev (takeWhile is_space (rev t))"
    by (metis rev_append rev_rev_ident)
  moreover have "\<forall>x\<in>set (rev (takeWhile is_space (rev t))). is_space x"
    by (auto dest: set_takeWhileD)
  ultimately show ?thesis unfolding rstrip_def by blast
qed

lemma query_lines_rstrip: "query_lines_from cur (rstrip t) = query_lines_from cur t"
proof -
  obtain w where w: "\<forall>x\<in>set w. is_space x" "t = rstrip t @ w"
    using rstrip_decomp by blast
  have "query_lines_from cur (rstrip t @ w) = query_lines_from cur (rstrip t)" using w(1) by (rule query_lines_trail)
  with w(2) show ?thesis by simp
qed

lemma query_lines_strip: "query_lines_from [] (strip t) = query_lines_from [] t"
  by (simp add: strip_def lstrip_def query_lines_lstrip query_lines_rstrip)

lemma collect_queries_filter:
  "collect_queries queries lines = queries @ filter is_query_line (map strip lines)"
  by (induction lines arbitrary: queries) (simp_all add: is_query_line_def Let_def)

text \<open>
  C8. For every text, \<open>extract_queries_from_text\<close> returns what the specification
  describes: the text split on line boundaries, every line trimmed, the lines that are
  empty after trimming and the lines that begin with \<open>#\<close> dropped, the others kept in
  input order. The empty text gives the empty list. The function is total: it has no
  error result.
\<close>

theorem extract_queries_from_text_spec:
  "extract_queries_from_text text = extract_spec text \<and> extract_queries_from_text [] = []"
proof -
  have "extract_queries_from_text text = query_lines_from [] (strip text)"
    by (cases "text = []")
       (simp_all add: extract_queries_from_text_def collect_queries_filter query_lines_from_def splitlines_def
          strip_def lstrip_def rstrip_def)
  also have "\<dots> = query_lines_from [] text" by (rule query_lines_strip)
  also have "\<dots> = extract_spec text" by (simp add: extract_spec_def query_lines_from_def splitlines_def)
  finally show ?thesis by (simp add: extract_queries_from_text_def)
qed

text \<open>The example of the specification: a comment and an empty line are dropped.\<close>

theorem extract_queries_from_text_example:
  "extract_queries_from_text (str ''foo\<newline># comment\<newline>\<newline>bar'') = [str ''foo'', str ''bar'']"
proof -
  have "extract_spec (str ''foo\<newline># comment\<newline>\<newline>bar'') = [str ''foo'', str ''bar'']"
    by (simp add: extract_spec_def splitlines_def str_def is_linebreak_def is_space_def
      strip_def lstrip_def rstrip_def is_query_line_def startswith_def)
  with extract_queries_from_text_spec [of "str ''foo\<newline># comment\<newline>\<newline>bar''"] show ?thesis
    by simp
qed

end
